theory Spec2Isabelle
  imports Complex_Main "HOL-Library.Word" "HOL-Library.Log_Nat"
begin

unbundle bit_operations_syntax

section \<open>Data model of the quadrature encoder interface (QEI.h)\<close>

text \<open>
  The class \<^verbatim>\<open>QEI\<close> of \<^verbatim>\<open>QEI.h\<close> is a record of its data members. The target is a
  32-bit mbed platform: \<^verbatim>\<open>int\<close> and \<^verbatim>\<open>unsigned int\<close> are 32-bit words, addition and
  subtraction wrap around (for \<^verbatim>\<open>int\<close> too, as the two's complement hardware does),
  \<open>sint\<close> reads a word as a signed \<^verbatim>\<open>int\<close>, and the order \<open><\<close> on words is the
  unsigned one. The member \<^verbatim>\<open>_encode_type\<close> is never written or read and is left out.

  The pin objects, the timer object and the registration of the interrupt handlers
  belong to the platform: a pin level read by \<^verbatim>\<open>read()\<close> (0 or 1) is an input of type
  \<open>bool\<close>, the value of \<^verbatim>\<open>_SpeedTimer.read_us()\<close> is an input word, and every member
  function is one atomic step on the record (the handlers run to completion, and
  \<^verbatim>\<open>getSpeed\<close> drains the window with interrupts disabled).

  The arithmetic of \<^verbatim>\<open>float\<close> is not part of the repository. It is a parameter of the
  model: a record of the four operations the source uses. Theorems stated for an
  arbitrary \<open>F\<close> hold for every floating-point arithmetic. Two arithmetics are given:
  the rationals without rounding, and IEEE 754 binary32, the \<^verbatim>\<open>float\<close> of the target.
\<close>

datatype Encoding = X2_ENCODING | X4_ENCODING

record 'f float_ops =
  f_lit :: "rat \<Rightarrow> 'f"            \<comment> \<open>the \<^verbatim>\<open>float\<close> of a decimal literal\<close>
  f_of_int :: "int \<Rightarrow> 'f"         \<comment> \<open>conversion of an \<^verbatim>\<open>int\<close> value to \<^verbatim>\<open>float\<close>\<close>
  fmul :: "'f \<Rightarrow> 'f \<Rightarrow> 'f"     \<comment> \<open>\<^verbatim>\<open>*\<close> on \<^verbatim>\<open>float\<close>\<close>
  fdiv :: "'f \<Rightarrow> 'f \<Rightarrow> 'f"     \<comment> \<open>\<^verbatim>\<open>/\<close> on \<^verbatim>\<open>float\<close>\<close>

text \<open>
  Arithmetic without rounding, on the rationals: used to evaluate concrete scenarios.
  \<^verbatim>\<open>getSpeed\<close> divides only where the sum and the count are not 0, so the value HOL
  gives to a division by 0 is never used.
\<close>

definition exact_arith :: "rat float_ops" where
  "exact_arith = \<lparr>f_lit = (\<lambda>q. q), f_of_int = of_int, fmul = (*), fdiv = (/)\<rparr>"

subsection \<open>IEEE 754 binary32\<close>

text \<open>
  A binary32 value is a signed zero, a finite number other than 0, a signed infinity
  (\<open>True\<close> is the minus sign) or a NaN. The finite values are the rationals
  \<open>n * 2 ^ k / 2 ^ 149\<close> with \<open>0 < \<bar>n\<bar> < 2 ^ 24\<close> and \<open>k \<le> 253\<close>, where \<open>k = 0\<close> or
  \<open>2 ^ 23 \<le> \<bar>n\<bar>\<close>: the subnormal numbers are those below \<open>2 ^ 23 / 2 ^ 149\<close>.
\<close>

datatype b32 = Zero bool | Fin rat | Infinity bool | NaN

text \<open>
  Rounding to nearest, ties to even. \<open>b32_ulp a\<close> is the distance between neighbouring
  binary32 values around \<open>a > 0\<close>: \<open>2 ^ (e - 23)\<close> for \<open>2 ^ e \<le> a < 2 ^ (e + 1)\<close>, and
  \<open>1 / 2 ^ 149\<close> below \<open>2 / 2 ^ 126\<close>. A nonzero number that rounds to 0 keeps its sign;
  a rounded magnitude of \<open>2 ^ 128\<close> or more is an infinity.
\<close>

definition b32_ulp :: "rat \<Rightarrow> rat" where
  "b32_ulp a = 2 ^ nat (max (bitlen \<lfloor>a * 2 ^ 149\<rfloor> - 24) 0) / 2 ^ 149"

definition b32_round :: "rat \<Rightarrow> b32" where
  "b32_round q =
     (if q = 0 then Zero False
      else
        let a = \<bar>q\<bar>; u = b32_ulp a; m = a / u; f = \<lfloor>m\<rfloor>;
            n = (if m - of_int f < 1 / 2 then f
                 else if 1 / 2 < m - of_int f then f + 1
                 else if even f then f else f + 1)
        in if n = 0 then Zero (q < 0)
           else if 2 ^ 128 \<le> of_int n * u then Infinity (q < 0)
           else Fin (sgn q * (of_int n * u)))"

text \<open>
  Multiplication and division: a NaN operand, infinity times zero, infinity by infinity
  and zero by zero give NaN; infinities and zeros take the exclusive or of the signs;
  a finite number other than 0 divided by a zero is an infinity; two finite operands
  give the rounded exact result.
\<close>

definition b32_is_zero :: "b32 \<Rightarrow> bool" where
  "b32_is_zero x = (case x of Zero s \<Rightarrow> True | _ \<Rightarrow> False)"

definition b32_is_inf :: "b32 \<Rightarrow> bool" where
  "b32_is_inf x = (case x of Infinity s \<Rightarrow> True | _ \<Rightarrow> False)"

definition b32_sign :: "b32 \<Rightarrow> bool" where
  "b32_sign x = (case x of Zero s \<Rightarrow> s | Fin v \<Rightarrow> v < 0 | Infinity s \<Rightarrow> s | NaN \<Rightarrow> False)"

definition b32_val :: "b32 \<Rightarrow> rat" where
  "b32_val x = (case x of Fin v \<Rightarrow> v | _ \<Rightarrow> 0)"

definition b32_mul :: "b32 \<Rightarrow> b32 \<Rightarrow> b32" where
  "b32_mul x y =
     (if x = NaN \<or> y = NaN then NaN
      else if (b32_is_inf x \<and> b32_is_zero y) \<or> (b32_is_zero x \<and> b32_is_inf y) then NaN
      else if b32_is_inf x \<or> b32_is_inf y then Infinity (b32_sign x \<noteq> b32_sign y)
      else if b32_is_zero x \<or> b32_is_zero y then Zero (b32_sign x \<noteq> b32_sign y)
      else b32_round (b32_val x * b32_val y))"

definition b32_div :: "b32 \<Rightarrow> b32 \<Rightarrow> b32" where
  "b32_div x y =
     (if x = NaN \<or> y = NaN then NaN
      else if (b32_is_inf x \<and> b32_is_inf y) \<or> (b32_is_zero x \<and> b32_is_zero y) then NaN
      else if b32_is_inf x \<or> b32_is_zero y then Infinity (b32_sign x \<noteq> b32_sign y)
      else if b32_is_zero x \<or> b32_is_inf y then Zero (b32_sign x \<noteq> b32_sign y)
      else b32_round (b32_val x / b32_val y))"

text \<open>
  The three literals of the source (\<^verbatim>\<open>1.0\<close>, \<^verbatim>\<open>0.5f\<close>, \<^verbatim>\<open>1000000.0f\<close>) are binary32
  values; the conversion from \<^verbatim>\<open>int\<close> rounds to nearest.
\<close>

definition binary32 :: "b32 float_ops" where
  "binary32 = \<lparr>f_lit = b32_round, f_of_int = (\<lambda>i. b32_round (of_int i)),
                fmul = b32_mul, fdiv = b32_div\<rparr>"

text \<open>A rational is a binary32 value when rounding leaves it as it is.\<close>

definition is_b32 :: "rat \<Rightarrow> bool" where
  "is_b32 v = (b32_round v = Fin v)"

subsection \<open>The state of the encoder\<close>

record 'f QEI_state =
  encoding :: Encoding
  prevState :: "32 word"
  currState :: "32 word"
  pulses :: "32 word"
  revolutions :: "32 word"
  fSpeedFactor :: 'f
  fPositionFactor :: 'f
  nSpeedLastTimer :: "32 word"
  nSpeedTimeoutMax :: "32 word"
  nSpeedTimeoutCount :: "32 word"
  nSpeedAvrTimeSum :: "32 word"
  nSpeedAvrTimeCount :: "32 word"
  fLastSpeed :: 'f

definition PREV_MASK :: "32 word" where "PREV_MASK = 0x01"
definition CURR_MASK :: "32 word" where "CURR_MASK = 0x02"
definition INVALID :: "32 word" where "INVALID = 0x03"

section \<open>The member functions (QEI.cpp)\<close>

text \<open>
  The constructor, lines 3 to 45. \<open>a\<close> and \<open>b\<close> are the levels of the two channels when
  it runs; the count of the sample window starts at the sentinel \<open>-1\<close>.
\<close>

definition QEI :: "'f float_ops \<Rightarrow> bool \<Rightarrow> bool \<Rightarrow> Encoding \<Rightarrow> 'f QEI_state" where
  "QEI F a b enc =
     (let chanA = (of_bool a :: 32 word); chanB = (of_bool b :: 32 word);
          st = push_bit 1 chanA OR chanB
      in \<lparr>encoding = enc, prevState = st, currState = st,
          pulses = 0, revolutions = 0,
          fSpeedFactor = f_lit F 1, fPositionFactor = f_lit F 1,
          nSpeedLastTimer = 0, nSpeedTimeoutMax = 10, nSpeedTimeoutCount = 0,
          nSpeedAvrTimeSum = 0, nSpeedAvrTimeCount = - 1,
          fLastSpeed = f_of_int F 0\<rparr>)"

definition reset :: "'f QEI_state \<Rightarrow> 'f QEI_state" where
  "reset s = s\<lparr>pulses := 0, revolutions := 0\<rparr>"

definition read :: "'f QEI_state \<Rightarrow> 32 word \<times> 'f QEI_state" where
  "read s = (pulses s, s)"

text \<open>\<^verbatim>\<open>write\<close> of the source (the name is an Isar keyword).\<close>

definition write_pulses :: "32 word \<Rightarrow> 'f QEI_state \<Rightarrow> 'f QEI_state" where
  "write_pulses v s = s\<lparr>pulses := v\<rparr>"

definition setSpeedFactor :: "'f \<Rightarrow> 'f QEI_state \<Rightarrow> 'f QEI_state" where
  "setSpeedFactor x s = s\<lparr>fSpeedFactor := x\<rparr>"

definition setPositionFactor :: "'f \<Rightarrow> 'f QEI_state \<Rightarrow> 'f QEI_state" where
  "setPositionFactor x s = s\<lparr>fPositionFactor := x\<rparr>"

definition getPosition :: "'f float_ops \<Rightarrow> 'f QEI_state \<Rightarrow> 'f \<times> 'f QEI_state" where
  "getPosition F s = (fmul F (f_of_int F (sint (pulses s))) (fPositionFactor s), s)"

definition index :: "'f QEI_state \<Rightarrow> 'f QEI_state" where
  "index s = s\<lparr>revolutions := revolutions s + 1\<rparr>"

text \<open>
  \<^verbatim>\<open>getSpeed\<close>, lines 76 to 108. \<^verbatim>\<open>_fSpeed\<close> is assigned in each of the three branches
  before it is read, so it is a local value here. The test of line 91 reads the timeout
  counter before the post-increment stores the new value.
\<close>

definition getSpeed :: "'f float_ops \<Rightarrow> 'f QEI_state \<Rightarrow> 'f \<times> 'f QEI_state" where
  "getSpeed F s =
     (let avrTimeSum = nSpeedAvrTimeSum s;
          avrTimeCount = nSpeedAvrTimeCount s;
          s1 = s\<lparr>nSpeedAvrTimeSum := 0, nSpeedAvrTimeCount := 0\<rparr>;
          (fSpeed, s2) =
            (if avrTimeCount = 0 then
               let old = nSpeedTimeoutCount s1;
                   s1a = s1\<lparr>nSpeedTimeoutCount := old + 1\<rparr>;
                   s1b = (if old > nSpeedTimeoutMax s1a
                          then s1a\<lparr>fLastSpeed := fmul F (fLastSpeed s1a) (f_lit F (1 / 2))\<rparr>
                          else s1a)
               in (fLastSpeed s1b, s1b)
             else if sint avrTimeCount < 0 \<or> avrTimeSum = 0 then
               (f_of_int F 0, s1\<lparr>nSpeedTimeoutCount := 0\<rparr>)
             else
               (fdiv F (fmul F (f_lit F 1000000) (fSpeedFactor s1))
                       (fdiv F (f_of_int F (sint avrTimeSum)) (f_of_int F (sint avrTimeCount))),
                s1\<lparr>nSpeedTimeoutCount := 0\<rparr>))
      in (fSpeed, s2\<lparr>fLastSpeed := fSpeed\<rparr>))"

text \<open>
  \<^verbatim>\<open>encode\<close>, lines 165 to 229, in its two parts. The first part (lines 167 to 207)
  reads the channels, updates the pulse count and leaves the local \<^verbatim>\<open>change\<close>:
  \<open>-1\<close> for no pulse, \<open>0\<close> for a pulse forward, \<open>1\<close> for a pulse backward.
\<close>

definition decode :: "bool \<Rightarrow> bool \<Rightarrow> 'f QEI_state \<Rightarrow> 32 word \<times> 'f QEI_state" where
  "decode a b s =
     (let chanA = (of_bool a :: 32 word); chanB = (of_bool b :: 32 word);
          s1 = s\<lparr>currState := push_bit 1 chanA OR chanB\<rparr>;
          (change, s2) =
            (if encoding s1 = X2_ENCODING then
               if (prevState s1 = 0x03 \<and> currState s1 = 0x00)
                  \<or> (prevState s1 = 0x00 \<and> currState s1 = 0x02)
               then (0, s1\<lparr>pulses := pulses s1 + 1\<rparr>)
               else if (prevState s1 = 0x02 \<and> currState s1 = 0x01)
                       \<or> (prevState s1 = 0x01 \<and> currState s1 = 0x02)
               then (1, s1\<lparr>pulses := pulses s1 - 1\<rparr>)
               else (- 1, s1)
             else if encoding s1 = X4_ENCODING then
               if (currState s1 XOR prevState s1) \<noteq> INVALID \<and> currState s1 \<noteq> prevState s1
               then
                 let change = (prevState s1 AND PREV_MASK)
                                XOR signed_drop_bit 1 (currState s1 AND CURR_MASK)
                 in if change = 0 then (change, s1\<lparr>pulses := pulses s1 + 1\<rparr>)
                    else if change = 1 then (change, s1\<lparr>pulses := pulses s1 - 1\<rparr>)
                    else (change, s1)
               else (- 1, s1)
             else (- 1, s1))
      in (change, s2\<lparr>prevState := currState s2\<rparr>))"

text \<open>
  The second part (lines 209 to 228) feeds the sample window; \<open>act\<close> is the value of
  \<^verbatim>\<open>_SpeedTimer.read_us()\<close>. The sum is an \<^verbatim>\<open>int\<close> and the difference an
  \<^verbatim>\<open>unsigned int\<close>: both \<^verbatim>\<open>+=\<close> and \<^verbatim>\<open>-=\<close> are word operations.
\<close>

definition sample :: "32 word \<Rightarrow> 32 word \<Rightarrow> 'f QEI_state \<Rightarrow> 'f QEI_state" where
  "sample change act s =
     (if change \<noteq> - 1 then
        let diff = act - nSpeedLastTimer s;
            s1 = s\<lparr>nSpeedLastTimer := act\<rparr>
        in if sint (nSpeedAvrTimeCount s1) < 0
           then s1\<lparr>nSpeedAvrTimeSum := 0, nSpeedAvrTimeCount := 0\<rparr>
           else
             let s2 = (if change = 0
                       then s1\<lparr>nSpeedAvrTimeSum := nSpeedAvrTimeSum s1 + diff\<rparr>
                       else s1\<lparr>nSpeedAvrTimeSum := nSpeedAvrTimeSum s1 - diff\<rparr>)
             in s2\<lparr>nSpeedAvrTimeCount := nSpeedAvrTimeCount s2 + 1\<rparr>
      else s)"

definition encode :: "bool \<Rightarrow> bool \<Rightarrow> 32 word \<Rightarrow> 'f QEI_state \<Rightarrow> 'f QEI_state" where
  "encode a b act s = (let (change, s1) = decode a b s in sample change act s1)"

section \<open>Scenarios and call sequences\<close>

text \<open>
  The scenario of a full forward cycle in X4 encoding: both channels low at construction,
  then the states 01, 11, 10, 00 read at the timer values 0, 1000, 2000 and 3000.
\<close>

definition forward_cycle :: "'f float_ops \<Rightarrow> 'f QEI_state" where
  "forward_cycle F =
     encode False False 3000 (encode True False 2000 (encode True True 1000
       (encode False True 0 (QEI F False False X4_ENCODING))))"

text \<open>A forward pulse followed by a backward pulse of the same duration: the sum is 0.\<close>

definition back_and_forth :: "'f float_ops \<Rightarrow> 'f QEI_state" where
  "back_and_forth F =
     encode False True 2000 (encode True True 1000
       (encode False True 0 (QEI F False False X4_ENCODING)))"

text \<open>\<open>n\<close> successive calls of \<^verbatim>\<open>getSpeed\<close>, the results dropped.\<close>

fun queries :: "'f float_ops \<Rightarrow> nat \<Rightarrow> 'f QEI_state \<Rightarrow> 'f QEI_state" where
  "queries F 0 s = s"
| "queries F (Suc n) s = queries F n (snd (getSpeed F s))"

text \<open>
  The encoder after the forward cycle and 1, 11 and 12 speed queries: the first query
  reports a speed, the others find the window empty.
\<close>

definition idle_after_query :: "rat QEI_state" where
  "idle_after_query = queries exact_arith 1 (forward_cycle exact_arith)"

definition idle_at_max :: "rat QEI_state" where
  "idle_at_max = queries exact_arith 11 (forward_cycle exact_arith)"

definition idle_past_max :: "rat QEI_state" where
  "idle_past_max = queries exact_arith 12 (forward_cycle exact_arith)"

text \<open>
  Scenarios in binary32. Two forward pulses one second apart; the forward cycle and
  twelve queries; the two pulses with the speed factor \<open>1 / 2 ^ 149\<close>, the least positive
  binary32 value, where the first query reports \<open>1 / 2 ^ 149\<close>, and twelve queries; the
  forward cycle with the speed factor \<open>2 ^ 127\<close>, where the product with
  \<^verbatim>\<open>1000000.0f\<close> overflows, and twelve queries.
\<close>

definition one_second :: "'f float_ops \<Rightarrow> 'f QEI_state" where
  "one_second F =
     encode True True 1000000 (encode False True 0 (QEI F False False X4_ENCODING))"

definition b32_past_max :: "b32 QEI_state" where
  "b32_past_max = queries binary32 12 (forward_cycle binary32)"

definition tiny_past_max :: "b32 QEI_state" where
  "tiny_past_max = queries binary32 12 (setSpeedFactor (Fin (1 / 2 ^ 149)) (one_second binary32))"

definition huge_past_max :: "b32 QEI_state" where
  "huge_past_max = queries binary32 12 (setSpeedFactor (Fin (2 ^ 127)) (forward_cycle binary32))"

text \<open>
  Any call of a member function, the two interrupt handlers included, and the state a
  sequence of calls leaves.
\<close>

datatype 'f operation =
  Reset | Read | Write "32 word" | SetSpeedFactor 'f | GetSpeed | SetPositionFactor 'f
  | GetPosition | Encode bool bool "32 word" | Index

fun call :: "'f float_ops \<Rightarrow> 'f operation \<Rightarrow> 'f QEI_state \<Rightarrow> 'f QEI_state" where
  "call F Reset s = reset s"
| "call F Read s = snd (read s)"
| "call F (Write v) s = write_pulses v s"
| "call F (SetSpeedFactor x) s = setSpeedFactor x s"
| "call F GetSpeed s = snd (getSpeed F s)"
| "call F (SetPositionFactor x) s = setPositionFactor x s"
| "call F GetPosition s = snd (getPosition F s)"
| "call F (Encode a b act) s = encode a b act s"
| "call F Index s = index s"

fun calls :: "'f float_ops \<Rightarrow> 'f operation list \<Rightarrow> 'f QEI_state \<Rightarrow> 'f QEI_state" where
  "calls F [] s = s"
| "calls F (c # cs) s = calls F cs (call F c s)"

section \<open>Auxiliary facts\<close>

lemmas encode_defs =
  encode_def decode_def sample_def Let_def INVALID_def PREV_MASK_def CURR_MASK_def

lemma and_one_cases: "(x::32 word) AND 1 = 0 \<or> x AND 1 = 1"
  by (simp add: and_one_eq mod_2_eq_odd)

lemma word_step_neq:
  "(x::32 word) + 1 \<noteq> x" "(x::32 word) - 1 \<noteq> x"
  "(x::32 word) + 1 \<noteq> x - 1" "(x::32 word) - 1 \<noteq> x + 1"
  "x \<noteq> (x::32 word) + 1" "x \<noteq> (x::32 word) - 1"
proof -
  have two: "(2::32 word) \<noteq> 0" by simp
  show "x + 1 \<noteq> x" "x - 1 \<noteq> x" "x \<noteq> x + 1" "x \<noteq> x - 1" by simp_all
  show "x + 1 \<noteq> x - 1"
  proof
    assume "x + 1 = x - 1"
    then have "(x + 1) - (x - 1) = 0" by simp
    then show False using two by simp
  qed
  then show "x - 1 \<noteq> x + 1" by metis
qed

text \<open>The local \<^verbatim>\<open>change\<close> and the pulse count move together, in both encodings.\<close>

lemma pulses_encode_cases:
  "(fst (decode a b s) = 0 \<and> pulses (encode a b act s) = pulses s + 1)
   \<or> (fst (decode a b s) = 1 \<and> pulses (encode a b act s) = pulses s - 1)
   \<or> (fst (decode a b s) = - 1 \<and> pulses (encode a b act s) = pulses s)"
  using and_one_cases[of "prevState s"]
  by (cases "encoding s"; cases a; cases b; auto simp add: encode_defs)

lemma sample_fields:
  "nSpeedLastTimer (sample c act s) = (if c \<noteq> - 1 then act else nSpeedLastTimer s)"
  "nSpeedAvrTimeCount (sample c act s) =
     (if c = - 1 then nSpeedAvrTimeCount s
      else if sint (nSpeedAvrTimeCount s) < 0 then 0 else nSpeedAvrTimeCount s + 1)"
  "nSpeedAvrTimeSum (sample c act s) =
     (if c = - 1 then nSpeedAvrTimeSum s
      else if sint (nSpeedAvrTimeCount s) < 0 then 0
      else if c = 0 then nSpeedAvrTimeSum s + (act - nSpeedLastTimer s)
      else nSpeedAvrTimeSum s - (act - nSpeedLastTimer s))"
  by (simp_all add: sample_def Let_def)

lemma decode_frame:
  "nSpeedLastTimer (snd (decode a b s)) = nSpeedLastTimer s"
  "nSpeedAvrTimeCount (snd (decode a b s)) = nSpeedAvrTimeCount s"
  "nSpeedAvrTimeSum (snd (decode a b s)) = nSpeedAvrTimeSum s"
  by (simp_all add: decode_def Let_def split: if_splits prod.splits)

lemma encode_window:
  "nSpeedLastTimer (encode a b act s) =
     (if fst (decode a b s) \<noteq> - 1 then act else nSpeedLastTimer s)"
  "nSpeedAvrTimeCount (encode a b act s) =
     (if fst (decode a b s) = - 1 then nSpeedAvrTimeCount s
      else if sint (nSpeedAvrTimeCount s) < 0 then 0 else nSpeedAvrTimeCount s + 1)"
  "nSpeedAvrTimeSum (encode a b act s) =
     (if fst (decode a b s) = - 1 then nSpeedAvrTimeSum s
      else if sint (nSpeedAvrTimeCount s) < 0 then 0
      else if fst (decode a b s) = 0 then nSpeedAvrTimeSum s + (act - nSpeedLastTimer s)
      else nSpeedAvrTimeSum s - (act - nSpeedLastTimer s))"
  by (simp_all add: encode_def sample_fields decode_frame split_beta)

lemma queries_numeral:
  "queries F (numeral k) s = queries F (pred_numeral k) (snd (getSpeed F s))"
  by (simp add: numeral_eq_Suc)

lemma getSpeed_idle:
  "nSpeedAvrTimeCount s = 0 \<Longrightarrow> \<not> nSpeedTimeoutMax s < nSpeedTimeoutCount s \<Longrightarrow>
   getSpeed F s =
     (fLastSpeed s, s\<lparr>nSpeedAvrTimeSum := 0, nSpeedTimeoutCount := nSpeedTimeoutCount s + 1\<rparr>)"
  by (simp add: getSpeed_def Let_def)

subsection \<open>The states of the scenarios\<close>

lemma fresh_state:
  "QEI F False False enc = \<lparr>encoding = enc, prevState = 0, currState = 0, pulses = 0,
    revolutions = 0, fSpeedFactor = f_lit F 1, fPositionFactor = f_lit F 1,
    nSpeedLastTimer = 0, nSpeedTimeoutMax = 10, nSpeedTimeoutCount = 0,
    nSpeedAvrTimeSum = 0, nSpeedAvrTimeCount = - 1, fLastSpeed = f_of_int F 0\<rparr>"
  by (simp add: QEI_def)

lemma forward_cycle_state:
  "forward_cycle F = \<lparr>encoding = X4_ENCODING, prevState = 0, currState = 0, pulses = 4,
    revolutions = 0, fSpeedFactor = f_lit F 1, fPositionFactor = f_lit F 1,
    nSpeedLastTimer = 3000, nSpeedTimeoutMax = 10, nSpeedTimeoutCount = 0,
    nSpeedAvrTimeSum = 3000, nSpeedAvrTimeCount = 3, fLastSpeed = f_of_int F 0\<rparr>"
  by (simp add: forward_cycle_def QEI_def encode_defs)

lemma back_and_forth_state:
  "back_and_forth F = \<lparr>encoding = X4_ENCODING, prevState = 1, currState = 1, pulses = 1,
    revolutions = 0, fSpeedFactor = f_lit F 1, fPositionFactor = f_lit F 1,
    nSpeedLastTimer = 2000, nSpeedTimeoutMax = 10, nSpeedTimeoutCount = 0,
    nSpeedAvrTimeSum = 0, nSpeedAvrTimeCount = 2, fLastSpeed = f_of_int F 0\<rparr>"
  by (simp add: back_and_forth_def QEI_def encode_defs)

lemma first_query_state:
  "getSpeed exact_arith (forward_cycle exact_arith) =
    (1000, \<lparr>encoding = X4_ENCODING, prevState = 0, currState = 0, pulses = 4,
      revolutions = 0, fSpeedFactor = 1, fPositionFactor = 1,
      nSpeedLastTimer = 3000, nSpeedTimeoutMax = 10, nSpeedTimeoutCount = 0,
      nSpeedAvrTimeSum = 0, nSpeedAvrTimeCount = 0, fLastSpeed = 1000\<rparr>)"
  by (simp add: forward_cycle_state getSpeed_def exact_arith_def Let_def)

lemma idle_after_query_state:
  "idle_after_query = \<lparr>encoding = X4_ENCODING, prevState = 0, currState = 0, pulses = 4,
    revolutions = 0, fSpeedFactor = 1, fPositionFactor = 1,
    nSpeedLastTimer = 3000, nSpeedTimeoutMax = 10, nSpeedTimeoutCount = 0,
    nSpeedAvrTimeSum = 0, nSpeedAvrTimeCount = 0, fLastSpeed = 1000\<rparr>"
  by (simp add: idle_after_query_def first_query_state)

lemma idle_at_max_state:
  "idle_at_max = \<lparr>encoding = X4_ENCODING, prevState = 0, currState = 0, pulses = 4,
    revolutions = 0, fSpeedFactor = 1, fPositionFactor = 1,
    nSpeedLastTimer = 3000, nSpeedTimeoutMax = 10, nSpeedTimeoutCount = 10,
    nSpeedAvrTimeSum = 0, nSpeedAvrTimeCount = 0, fLastSpeed = 1000\<rparr>"
  by (simp add: idle_at_max_def queries_numeral first_query_state getSpeed_idle)

lemma idle_past_max_state:
  "idle_past_max = \<lparr>encoding = X4_ENCODING, prevState = 0, currState = 0, pulses = 4,
    revolutions = 0, fSpeedFactor = 1, fPositionFactor = 1,
    nSpeedLastTimer = 3000, nSpeedTimeoutMax = 10, nSpeedTimeoutCount = 11,
    nSpeedAvrTimeSum = 0, nSpeedAvrTimeCount = 0, fLastSpeed = 1000\<rparr>"
  by (simp add: idle_past_max_def queries_numeral first_query_state getSpeed_idle)

subsection \<open>Rounding and the scenarios in binary32\<close>

lemma b32_ulp_exact:
  fixes n :: int and k :: nat
  assumes n: "0 < n" "n < 2 ^ 24" and k: "k = 0 \<or> 2 ^ 23 \<le> n"
  shows "b32_ulp (of_int n * 2 ^ k / 2 ^ 149) = 2 ^ k / 2 ^ 149"
proof -
  have fl: "\<lfloor>(of_int n * 2 ^ k / 2 ^ 149 :: rat) * 2 ^ 149\<rfloor> = n * 2 ^ k"
  proof -
    have "(of_int n * 2 ^ k / 2 ^ 149 :: rat) * 2 ^ 149 = of_int (n * 2 ^ k)" by simp
    then show ?thesis by (simp only: floor_of_int)
  qed
  have le: "bitlen n \<le> 24" using n by (simp add: bitlen_le_iff_power)
  have "max (bitlen (n * 2 ^ k) - 24) 0 = int k"
  proof (cases "k = 0")
    case True
    with le show ?thesis by simp
  next
    case False
    with k have "2 ^ 23 \<le> n" by simp
    then have "24 \<le> bitlen n" by (simp add: bitlen_ge_iff_power)
    with le have "bitlen n = 24" by simp
    with n show ?thesis by (simp add: bitlen_pow2)
  qed
  with fl show ?thesis by (simp add: b32_ulp_def)
qed

lemma b32_round_exact:
  fixes n :: int and k :: nat
  assumes n: "0 < n" "n < 2 ^ 24" and k: "k = 0 \<or> 2 ^ 23 \<le> n" and k253: "k \<le> 253"
  shows "b32_round (of_int n * 2 ^ k / 2 ^ 149) = Fin (of_int n * 2 ^ k / 2 ^ 149)"
    and "b32_round (- (of_int n * 2 ^ k / 2 ^ 149)) = Fin (- (of_int n * 2 ^ k / 2 ^ 149))"
proof -
  define a :: rat where "a = of_int n * 2 ^ k / 2 ^ 149"
  define u :: rat where "u = 2 ^ k / 2 ^ 149"
  have pos: "0 < a" using n by (simp add: a_def)
  have ulp: "b32_ulp a = u" unfolding a_def u_def by (rule b32_ulp_exact [OF n k])
  have m: "a / u = of_int n" by (simp add: a_def u_def)
  have nu: "of_int n * u = a" by (simp add: a_def u_def)
  have "(of_int n :: rat) < 2 ^ 24" using n by (metis of_int_less_numeral_power_cancel_iff)
  moreover have "(2::rat) ^ k \<le> 2 ^ 253" using k253 by (intro power_increasing) simp_all
  ultimately have "(of_int n :: rat) * 2 ^ k < 2 ^ 24 * 2 ^ 253"
    using n by (intro mult_less_le_imp_less) simp_all
  then have lt: "\<not> 2 ^ 128 \<le> a" by (simp add: a_def divide_simps)
  have n0: "n \<noteq> 0" using n by simp
  have "b32_round a = Fin a"
    unfolding b32_round_def Let_def using pos lt n0 by (simp add: ulp m nu)
  then show "b32_round (of_int n * 2 ^ k / 2 ^ 149) = Fin (of_int n * 2 ^ k / 2 ^ 149)"
    by (simp only: a_def)
  have "b32_round (- a) = Fin (- a)"
    unfolding b32_round_def Let_def using pos lt n0 by (simp add: ulp m nu)
  then show "b32_round (- (of_int n * 2 ^ k / 2 ^ 149)) = Fin (- (of_int n * 2 ^ k / 2 ^ 149))"
    by (simp only: a_def)
qed

lemma b32_consts:
  "b32_round 1 = Fin 1" "b32_round (1 / 2) = Fin (1 / 2)" "b32_round 1000000 = Fin 1000000"
  "b32_round 0 = Zero False" "b32_round 3000 = Fin 3000" "b32_round 3 = Fin 3"
  "b32_round 1000 = Fin 1000" "b32_round 500 = Fin 500"
  by code_simp+

lemma binary32_sel:
  "f_lit binary32 = b32_round" "f_of_int binary32 i = b32_round (of_int i)"
  "fmul binary32 = b32_mul" "fdiv binary32 = b32_div"
  by (simp_all add: binary32_def)

lemma b32_first_query:
  "getSpeed binary32 (forward_cycle binary32) =
    (Fin 1000, \<lparr>encoding = X4_ENCODING, prevState = 0, currState = 0, pulses = 4,
      revolutions = 0, fSpeedFactor = Fin 1, fPositionFactor = Fin 1,
      nSpeedLastTimer = 3000, nSpeedTimeoutMax = 10, nSpeedTimeoutCount = 0,
      nSpeedAvrTimeSum = 0, nSpeedAvrTimeCount = 0, fLastSpeed = Fin 1000\<rparr>)"
proof -
  have "b32_div (b32_mul (Fin 1000000) (Fin 1)) (b32_div (Fin 3000) (Fin 3)) = Fin 1000"
    by code_simp
  then show ?thesis
    by (simp add: forward_cycle_state getSpeed_def Let_def binary32_sel b32_consts)
qed

lemma b32_past_max_state:
  "b32_past_max = \<lparr>encoding = X4_ENCODING, prevState = 0, currState = 0, pulses = 4,
    revolutions = 0, fSpeedFactor = Fin 1, fPositionFactor = Fin 1,
    nSpeedLastTimer = 3000, nSpeedTimeoutMax = 10, nSpeedTimeoutCount = 11,
    nSpeedAvrTimeSum = 0, nSpeedAvrTimeCount = 0, fLastSpeed = Fin 1000\<rparr>"
  by (simp add: b32_past_max_def queries_numeral b32_first_query getSpeed_idle)

lemma one_second_state:
  "one_second F = \<lparr>encoding = X4_ENCODING, prevState = 3, currState = 3, pulses = 2,
    revolutions = 0, fSpeedFactor = f_lit F 1, fPositionFactor = f_lit F 1,
    nSpeedLastTimer = 1000000, nSpeedTimeoutMax = 10, nSpeedTimeoutCount = 0,
    nSpeedAvrTimeSum = 1000000, nSpeedAvrTimeCount = 1, fLastSpeed = f_of_int F 0\<rparr>"
  by (simp add: one_second_def QEI_def encode_defs)

lemma tiny_first_query:
  "getSpeed binary32 (setSpeedFactor (Fin (1 / 2 ^ 149)) (one_second binary32)) =
    (Fin (1 / 2 ^ 149), \<lparr>encoding = X4_ENCODING, prevState = 3, currState = 3, pulses = 2,
      revolutions = 0, fSpeedFactor = Fin (1 / 2 ^ 149), fPositionFactor = Fin 1,
      nSpeedLastTimer = 1000000, nSpeedTimeoutMax = 10, nSpeedTimeoutCount = 0,
      nSpeedAvrTimeSum = 0, nSpeedAvrTimeCount = 0, fLastSpeed = Fin (1 / 2 ^ 149)\<rparr>)"
proof -
  have "b32_div (b32_mul (Fin 1000000) (Fin (1 / 2 ^ 149))) (b32_div (Fin 1000000) (Fin 1))
          = Fin (1 / 2 ^ 149)"
    by code_simp
  then show ?thesis
    by (simp add: one_second_state setSpeedFactor_def getSpeed_def Let_def binary32_sel b32_consts)
qed

lemma tiny_past_max_state:
  "tiny_past_max = \<lparr>encoding = X4_ENCODING, prevState = 3, currState = 3, pulses = 2,
      revolutions = 0, fSpeedFactor = Fin (1 / 2 ^ 149), fPositionFactor = Fin 1,
      nSpeedLastTimer = 1000000, nSpeedTimeoutMax = 10, nSpeedTimeoutCount = 11,
      nSpeedAvrTimeSum = 0, nSpeedAvrTimeCount = 0, fLastSpeed = Fin (1 / 2 ^ 149)\<rparr>"
  by (simp add: tiny_past_max_def queries_numeral tiny_first_query [simplified] getSpeed_idle)

lemma huge_first_query:
  "getSpeed binary32 (setSpeedFactor (Fin (2 ^ 127)) (forward_cycle binary32)) =
    (Infinity False, \<lparr>encoding = X4_ENCODING, prevState = 0, currState = 0, pulses = 4,
      revolutions = 0, fSpeedFactor = Fin (2 ^ 127), fPositionFactor = Fin 1,
      nSpeedLastTimer = 3000, nSpeedTimeoutMax = 10, nSpeedTimeoutCount = 0,
      nSpeedAvrTimeSum = 0, nSpeedAvrTimeCount = 0, fLastSpeed = Infinity False\<rparr>)"
proof -
  have "b32_div (b32_mul (Fin 1000000) (Fin (2 ^ 127))) (b32_div (Fin 3000) (Fin 3)) = Infinity False"
    by code_simp
  then show ?thesis
    by (simp add: forward_cycle_state setSpeedFactor_def getSpeed_def Let_def binary32_sel b32_consts)
qed

lemma huge_past_max_state:
  "huge_past_max = \<lparr>encoding = X4_ENCODING, prevState = 0, currState = 0, pulses = 4,
      revolutions = 0, fSpeedFactor = Fin (2 ^ 127), fPositionFactor = Fin 1,
      nSpeedLastTimer = 3000, nSpeedTimeoutMax = 10, nSpeedTimeoutCount = 11,
      nSpeedAvrTimeSum = 0, nSpeedAvrTimeCount = 0, fLastSpeed = Infinity False\<rparr>"
  by (simp add: huge_past_max_def queries_numeral huge_first_query [simplified] getSpeed_idle)

lemma getSpeed_decay:
  "nSpeedAvrTimeCount s = 0 \<Longrightarrow> nSpeedTimeoutMax s < nSpeedTimeoutCount s \<Longrightarrow>
   fLastSpeed (snd (getSpeed F s)) = fmul F (fLastSpeed s) (f_lit F (1 / 2))"
  by (simp add: getSpeed_def Let_def)

lemma half_of_normal:
  fixes n :: int and k :: nat
  assumes "2 ^ 23 \<le> \<bar>n\<bar>" "\<bar>n\<bar> < 2 ^ 24" "1 \<le> k" "k \<le> 253"
  shows "is_b32 (of_int n * 2 ^ k / 2 ^ 149 / 2)"
proof -
  obtain j where j: "k = Suc j" using assms(3) by (cases k) simp_all
  have half: "(of_int m :: rat) * 2 ^ k / 2 ^ 149 / 2 = of_int m * 2 ^ j / 2 ^ 149" for m
    by (simp add: j)
  have j253: "j \<le> 253" using assms(4) j by simp
  show ?thesis
  proof (cases "0 < n")
    case True
    with assms have "0 < n" "n < 2 ^ 24" "j = 0 \<or> 2 ^ 23 \<le> n" by simp_all
    from b32_round_exact(1) [OF this j253] show ?thesis
      unfolding is_b32_def half .
  next
    case False
    with assms have "0 < - n" "- n < 2 ^ 24" "j = 0 \<or> 2 ^ 23 \<le> - n" by simp_all
    from b32_round_exact(2) [OF this j253] show ?thesis
      unfolding is_b32_def half by simp
  qed
qed

subsection \<open>The sentinel of the window\<close>

lemma count_call:
  assumes h: "nSpeedAvrTimeCount s \<noteq> - 1"
  shows "nSpeedAvrTimeCount (call F c s) \<noteq> - 1"
proof (cases c)
  case (Encode a b act)
  have "sint (nSpeedAvrTimeCount s) < 0" if "nSpeedAvrTimeCount s + 1 = - 1"
  proof -
    from that have "nSpeedAvrTimeCount s = - 2"
      by (simp add: eq_neg_iff_add_eq_0 add.commute)
    then show ?thesis by simp
  qed
  with h Encode show ?thesis by (auto simp add: encode_window)
qed (use h in \<open>simp_all add: reset_def read_def write_pulses_def setSpeedFactor_def
       setPositionFactor_def getPosition_def index_def getSpeed_def Let_def split_beta\<close>)

lemma count_calls:
  "nSpeedAvrTimeCount s \<noteq> - 1 \<Longrightarrow> nSpeedAvrTimeCount (calls F cs s) \<noteq> - 1"
  by (induction cs arbitrary: s) (simp_all add: count_call)

section \<open>The transition decoder\<close>

text \<open>
  Claim C1. In X4 encoding, with \<open>p\<close> the previous state and \<open>c\<close> the state read by the
  call: when \<open>p XOR c \<noteq> 0b11\<close> and \<open>p \<noteq> c\<close>, the value
  \<open>d = (p AND 0b01) XOR ((c AND 0b10) >> 1)\<close> is 0 or 1, the pulse count goes up by one
  when \<open>d = 0\<close> and down by one when \<open>d = 1\<close>; when \<open>p = c\<close> the pulse count is left
  as it is. The previous state may be any word, the state read is any of the four
  two-bit states.
\<close>

theorem x4_direction_rule:
  assumes "encoding s = X4_ENCODING"
  shows "let p = prevState s; s' = encode a b act s; c = currState s';
             d = (p AND 0b01) XOR drop_bit 1 (c AND 0b10)
         in (p XOR c \<noteq> 0b11 \<and> p \<noteq> c \<longrightarrow>
               (d = 0 \<or> d = 1) \<and>
               (d = 0 \<longrightarrow> pulses s' = pulses s + 1) \<and>
               (d = 1 \<longrightarrow> pulses s' = pulses s - 1)) \<and>
            (p = c \<longrightarrow> pulses s' = pulses s)"
  using assms and_one_cases[of "prevState s"]
  by (cases a; cases b; auto simp add: encode_defs xor.commute split: if_splits)

theorem x4_direction_rule_witness:
  "encoding (QEI exact_arith False False X4_ENCODING) = X4_ENCODING \<and>
   prevState (QEI exact_arith False False X4_ENCODING) = 0 \<and>
   currState (encode False True 0 (QEI exact_arith False False X4_ENCODING)) = 1 \<and>
   pulses (encode False True 0 (QEI exact_arith False False X4_ENCODING)) = 1 \<and>
   currState (encode True False 0 (QEI exact_arith False False X4_ENCODING)) = 2 \<and>
   pulses (encode True False 0 (QEI exact_arith False False X4_ENCODING)) = - 1 \<and>
   currState (encode False False 0 (QEI exact_arith False False X4_ENCODING)) = 0 \<and>
   pulses (encode False False 0 (QEI exact_arith False False X4_ENCODING)) = 0"
proof -
  have h: "encoding (QEI exact_arith False False X4_ENCODING) = X4_ENCODING"
    by (simp add: QEI_def)
  have c: "currState (encode a b act s) = push_bit 1 (of_bool a) OR of_bool b"
    for a b act and s :: "rat QEI_state"
    by (simp add: encode_defs split_beta)
  show ?thesis
    using h x4_direction_rule [OF h, of False True 0] x4_direction_rule [OF h, of True False 0]
      x4_direction_rule [OF h, of False False 0]
    by (simp add: Let_def c fresh_state)
qed

text \<open>
  Claim C2. In X2 encoding the pulse count goes up by one exactly for the pairs
  (previous, current) = (11, 00) and (00, 10), down by one exactly for the pairs
  (10, 01) and (01, 10), and stays as it is for every other pair, equal states
  included.
\<close>

theorem x2_transition_table:
  assumes "encoding s = X2_ENCODING"
  shows "let p = prevState s; s' = encode a b act s; c = currState s'
         in (pulses s' = pulses s + 1 \<longleftrightarrow> (p = 0b11 \<and> c = 0b00) \<or> (p = 0b00 \<and> c = 0b10)) \<and>
            (pulses s' = pulses s - 1 \<longleftrightarrow> (p = 0b10 \<and> c = 0b01) \<or> (p = 0b01 \<and> c = 0b10)) \<and>
            (\<not> ((p = 0b11 \<and> c = 0b00) \<or> (p = 0b00 \<and> c = 0b10)) \<and>
             \<not> ((p = 0b10 \<and> c = 0b01) \<or> (p = 0b01 \<and> c = 0b10))
               \<longrightarrow> pulses s' = pulses s) \<and>
            (p = c \<longrightarrow> pulses s' = pulses s)"
  using assms
  by (cases a; cases b; auto simp add: encode_defs word_step_neq)

theorem x2_transition_table_witness:
  "encoding (QEI exact_arith True True X2_ENCODING) = X2_ENCODING \<and>
   prevState (QEI exact_arith True True X2_ENCODING) = 3 \<and>
   currState (encode False False 0 (QEI exact_arith True True X2_ENCODING)) = 0 \<and>
   pulses (encode False False 0 (QEI exact_arith True True X2_ENCODING)) = 1 \<and>
   encoding (QEI exact_arith True False X2_ENCODING) = X2_ENCODING \<and>
   prevState (QEI exact_arith True False X2_ENCODING) = 2 \<and>
   currState (encode False True 0 (QEI exact_arith True False X2_ENCODING)) = 1 \<and>
   pulses (encode False True 0 (QEI exact_arith True False X2_ENCODING)) = - 1 \<and>
   currState (encode True False 0 (QEI exact_arith True False X2_ENCODING)) = 2 \<and>
   pulses (encode True False 0 (QEI exact_arith True False X2_ENCODING)) = 0"
proof -
  have h3: "encoding (QEI exact_arith True True X2_ENCODING) = X2_ENCODING"
    and h2: "encoding (QEI exact_arith True False X2_ENCODING) = X2_ENCODING"
    by (simp_all add: QEI_def)
  have c: "currState (encode a b act s) = push_bit 1 (of_bool a) OR of_bool b"
    for a b act and s :: "rat QEI_state"
    by (simp add: encode_defs split_beta)
  have p: "prevState (QEI exact_arith True True X2_ENCODING) = 3"
    "prevState (QEI exact_arith True False X2_ENCODING) = 2"
    "pulses (QEI exact_arith True True X2_ENCODING) = 0"
    "pulses (QEI exact_arith True False X2_ENCODING) = 0"
    by (simp_all add: QEI_def)
  show ?thesis
    using h3 h2 x2_transition_table [OF h3, of False False 0]
      x2_transition_table [OF h2, of False True 0] x2_transition_table [OF h2, of True False 0]
    by (simp add: Let_def c p)
qed

text \<open>
  Claim C5. Every call of the decoder, in both encodings and for every transition,
  leaves the previous state equal to the state it read; in X4 encoding a transition
  with \<open>previous XOR current = 0b11\<close> leaves the pulse count as it is.
\<close>

theorem prev_state_always_updated:
  "prevState (encode a b act s) = currState (encode a b act s) \<and>
   currState (encode a b act s) = push_bit 1 (of_bool a) OR of_bool b \<and>
   (encoding s = X4_ENCODING \<and> prevState s XOR currState (encode a b act s) = 0b11
      \<longrightarrow> pulses (encode a b act s) = pulses s)"
  by (auto simp add: encode_defs xor.commute split: if_splits)

theorem prev_state_always_updated_witness:
  "encoding (QEI exact_arith False False X4_ENCODING) = X4_ENCODING \<and>
   prevState (QEI exact_arith False False X4_ENCODING) XOR
     currState (encode True True 0 (QEI exact_arith False False X4_ENCODING)) = 0b11 \<and>
   prevState (encode True True 0 (QEI exact_arith False False X4_ENCODING)) = 3 \<and>
   pulses (encode True True 0 (QEI exact_arith False False X4_ENCODING)) = 0"
  using prev_state_always_updated [of True True 0 "QEI exact_arith False False X4_ENCODING"]
  by (simp add: fresh_state)

section \<open>The speed estimator\<close>

text \<open>
  Claim C4. A call of the decoder moves the pulse count by \<open>+1\<close> (forward), by \<open>-1\<close>
  (backward) or not at all. On a pulse, with \<open>delta\<close> the timer value minus the stored
  last timer value, the last timer value becomes the timer value; if the count of the
  window is negative the window becomes sum 0 and count 0 and \<open>delta\<close> is dropped;
  otherwise the count goes up by one and the sum goes up by \<open>delta\<close> on a forward pulse
  and down by \<open>delta\<close> on a backward pulse. Without a pulse the window and the last
  timer value are left as they are.
\<close>

theorem pulse_feeds_window:
  "let s' = encode a b act s; delta = act - nSpeedLastTimer s
   in (pulses s' = pulses s + 1 \<or> pulses s' = pulses s - 1 \<or> pulses s' = pulses s) \<and>
      (pulses s' \<noteq> pulses s \<longrightarrow>
         nSpeedLastTimer s' = act \<and>
         (if sint (nSpeedAvrTimeCount s) < 0
          then nSpeedAvrTimeSum s' = 0 \<and> nSpeedAvrTimeCount s' = 0
          else nSpeedAvrTimeCount s' = nSpeedAvrTimeCount s + 1 \<and>
               (pulses s' = pulses s + 1 \<longrightarrow>
                  nSpeedAvrTimeSum s' = nSpeedAvrTimeSum s + delta) \<and>
               (pulses s' = pulses s - 1 \<longrightarrow>
                  nSpeedAvrTimeSum s' = nSpeedAvrTimeSum s - delta))) \<and>
      (pulses s' = pulses s \<longrightarrow>
         nSpeedAvrTimeSum s' = nSpeedAvrTimeSum s \<and>
         nSpeedAvrTimeCount s' = nSpeedAvrTimeCount s \<and>
         nSpeedLastTimer s' = nSpeedLastTimer s)"
  using pulses_encode_cases[of a b s act]
  by (auto simp add: Let_def encode_window word_step_neq)

theorem pulse_feeds_window_witness:
  "pulses (encode False True 4000 (forward_cycle exact_arith)) = 5 \<and>
   nSpeedLastTimer (encode False True 4000 (forward_cycle exact_arith)) = 4000 \<and>
   nSpeedAvrTimeSum (encode False True 4000 (forward_cycle exact_arith)) = 4000 \<and>
   nSpeedAvrTimeCount (encode False True 4000 (forward_cycle exact_arith)) = 4 \<and>
   pulses (encode True False 4000 (forward_cycle exact_arith)) = 3 \<and>
   nSpeedAvrTimeSum (encode True False 4000 (forward_cycle exact_arith)) = 2000 \<and>
   nSpeedAvrTimeCount (encode True False 4000 (forward_cycle exact_arith)) = 4 \<and>
   pulses (encode False False 4000 (forward_cycle exact_arith)) = 4 \<and>
   nSpeedLastTimer (encode False False 4000 (forward_cycle exact_arith)) = 3000 \<and>
   nSpeedAvrTimeSum (encode False False 4000 (forward_cycle exact_arith)) = 3000 \<and>
   nSpeedAvrTimeCount (encode False False 4000 (forward_cycle exact_arith)) = 3 \<and>
   pulses (encode False True 700 (QEI exact_arith False False X4_ENCODING)) = 1 \<and>
   nSpeedLastTimer (encode False True 700 (QEI exact_arith False False X4_ENCODING)) = 700 \<and>
   nSpeedAvrTimeSum (encode False True 700 (QEI exact_arith False False X4_ENCODING)) = 0 \<and>
   nSpeedAvrTimeCount (encode False True 700 (QEI exact_arith False False X4_ENCODING)) = 0"
proof -
  have p: "pulses (encode False True 4000 (forward_cycle exact_arith)) = 5"
    "pulses (encode True False 4000 (forward_cycle exact_arith)) = 3"
    "pulses (encode False False 4000 (forward_cycle exact_arith)) = 4"
    "pulses (encode False True 700 (QEI exact_arith False False X4_ENCODING)) = 1"
    by (simp_all add: forward_cycle_state fresh_state encode_defs)
  have q: "pulses (forward_cycle exact_arith) = 4"
    "nSpeedLastTimer (forward_cycle exact_arith) = 3000"
    "nSpeedAvrTimeSum (forward_cycle exact_arith) = 3000"
    "nSpeedAvrTimeCount (forward_cycle exact_arith) = 3"
    "pulses (QEI exact_arith False False X4_ENCODING) = 0"
    "nSpeedLastTimer (QEI exact_arith False False X4_ENCODING) = 0"
    "nSpeedAvrTimeCount (QEI exact_arith False False X4_ENCODING) = - 1"
    by (simp_all add: forward_cycle_state fresh_state)
  show ?thesis
    using pulse_feeds_window [of False True 4000 "forward_cycle exact_arith"]
      pulse_feeds_window [of True False 4000 "forward_cycle exact_arith"]
      pulse_feeds_window [of False False 4000 "forward_cycle exact_arith"]
      pulse_feeds_window [of False True 700 "QEI exact_arith False False X4_ENCODING"]
    by (simp add: Let_def p q)
qed

text \<open>
  Claim C3, as the code has it. A call of \<^verbatim>\<open>getSpeed\<close> that drains a count of 0 adds one
  to the timeout counter; if the counter read before that addition exceeds the maximum,
  the last speed is multiplied by \<open>0.5f\<close>; the call reports the last speed. In binary32
  each such call past the maximum strictly decreases the absolute value of the last
  speed by half when the last speed is finite, not 0, and its half is a binary32 value;
  every normal value of magnitude \<open>2 / 2 ^ 126\<close> or more has such a half.
\<close>

theorem empty_window_decay:
  "(nSpeedAvrTimeCount s = 0 \<longrightarrow>
      nSpeedTimeoutCount (snd (getSpeed F s)) = nSpeedTimeoutCount s + 1 \<and>
      fLastSpeed (snd (getSpeed F s)) =
        (if nSpeedTimeoutMax s < nSpeedTimeoutCount s
         then fmul F (fLastSpeed s) (f_lit F (1 / 2)) else fLastSpeed s) \<and>
      fst (getSpeed F s) = fLastSpeed (snd (getSpeed F s))) \<and>
   (nSpeedAvrTimeCount t = 0 \<and> nSpeedTimeoutMax t < nSpeedTimeoutCount t \<and>
    fLastSpeed t = Fin x \<and> x \<noteq> 0 \<and> is_b32 (x / 2) \<longrightarrow>
      fLastSpeed (snd (getSpeed binary32 t)) = Fin (x / 2) \<and>
      \<bar>x / 2\<bar> = \<bar>x\<bar> / 2 \<and> \<bar>x / 2\<bar> < \<bar>x\<bar>) \<and>
   (2 ^ 23 \<le> \<bar>n\<bar> \<and> \<bar>n\<bar> < 2 ^ 24 \<and> 1 \<le> k \<and> k \<le> 253 \<longrightarrow>
      is_b32 (of_int n * 2 ^ k / 2 ^ 149 / 2))"
proof -
  have a: "nSpeedAvrTimeCount s = 0 \<longrightarrow>
      nSpeedTimeoutCount (snd (getSpeed F s)) = nSpeedTimeoutCount s + 1 \<and>
      fLastSpeed (snd (getSpeed F s)) =
        (if nSpeedTimeoutMax s < nSpeedTimeoutCount s
         then fmul F (fLastSpeed s) (f_lit F (1 / 2)) else fLastSpeed s) \<and>
      fst (getSpeed F s) = fLastSpeed (snd (getSpeed F s))"
    by (simp add: getSpeed_def Let_def)
  have b: "fLastSpeed (snd (getSpeed binary32 t)) = Fin (x / 2)"
    if "nSpeedAvrTimeCount t = 0" "nSpeedTimeoutMax t < nSpeedTimeoutCount t"
      "fLastSpeed t = Fin x" "is_b32 (x / 2)"
  proof -
    have "fLastSpeed (snd (getSpeed binary32 t)) = b32_mul (Fin x) (Fin (1 / 2))"
      using that(3) by (simp add: getSpeed_decay [OF that(1,2)] binary32_sel b32_consts)
    also have "\<dots> = b32_round (x / 2)"
      by (simp add: b32_mul_def b32_is_inf_def b32_is_zero_def b32_val_def)
    finally show ?thesis using that(4) by (simp add: is_b32_def)
  qed
  have c: "2 ^ 23 \<le> \<bar>n\<bar> \<and> \<bar>n\<bar> < 2 ^ 24 \<and> 1 \<le> k \<and> k \<le> 253 \<longrightarrow>
      is_b32 (of_int n * 2 ^ k / 2 ^ 149 / 2)"
    using half_of_normal [of n k] by blast
  from a b c show ?thesis by simp
qed

theorem empty_window_decay_witness:
  "nSpeedAvrTimeCount idle_past_max = 0 \<and>
   nSpeedTimeoutMax idle_past_max < nSpeedTimeoutCount idle_past_max \<and>
   fLastSpeed idle_past_max = 1000 \<and>
   nSpeedTimeoutCount (snd (getSpeed exact_arith idle_past_max)) = 12 \<and>
   fLastSpeed (snd (getSpeed exact_arith idle_past_max)) = 500 \<and>
   fst (getSpeed exact_arith idle_past_max) = 500 \<and>
   nSpeedAvrTimeCount b32_past_max = 0 \<and>
   nSpeedTimeoutMax b32_past_max < nSpeedTimeoutCount b32_past_max \<and>
   fLastSpeed b32_past_max = Fin 1000 \<and>
   is_b32 (1000 / 2) \<and>
   fLastSpeed (snd (getSpeed binary32 b32_past_max)) = Fin 500 \<and>
   (2 ^ 23 \<le> \<bar>16384000 :: int\<bar> \<and> \<bar>16384000 :: int\<bar> < 2 ^ 24 \<and>
    (1 :: nat) \<le> 135 \<and> (135 :: nat) \<le> 253) \<and>
   is_b32 (of_int 16384000 * 2 ^ 135 / 2 ^ 149 / 2)"
proof -
  have q: "nSpeedAvrTimeCount idle_past_max = 0" "nSpeedTimeoutMax idle_past_max = 10"
    "nSpeedTimeoutCount idle_past_max = 11" "fLastSpeed idle_past_max = 1000"
    by (simp_all add: idle_past_max_state)
  have b: "nSpeedAvrTimeCount b32_past_max = 0" "nSpeedTimeoutMax b32_past_max = 10"
    "nSpeedTimeoutCount b32_past_max = 11" "fLastSpeed b32_past_max = Fin 1000"
    by (simp_all add: b32_past_max_state)
  have h: "is_b32 (1000 / 2)" by (simp add: is_b32_def b32_consts)
  show ?thesis
    using h empty_window_decay [of idle_past_max exact_arith b32_past_max 1000 16384000 135]
    by (simp add: q b) (simp add: exact_arith_def)
qed

text \<open>
  The claim as it is written tests the counter after the addition. After the forward
  cycle, a first query and ten queries on an empty window, the counter is 10, the
  maximum. The next query drains a count of 0 and leaves the counter at 11, above the
  maximum, and still reports the last speed 1000, not its half.

  It also promises half the absolute value for every last speed other than 0. With the
  speed factor \<open>1 / 2 ^ 149\<close> the last speed is \<open>1 / 2 ^ 149\<close>, and the query past the
  maximum leaves 0, since the half is no binary32 value. With the speed factor
  \<open>2 ^ 127\<close> the last speed is an infinity, and the query past the maximum leaves it so.
\<close>

theorem empty_window_decay_counterexample:
  "nSpeedAvrTimeCount idle_at_max = 0 \<and>
   nSpeedTimeoutCount (snd (getSpeed exact_arith idle_at_max)) = 11 \<and>
   nSpeedTimeoutMax (snd (getSpeed exact_arith idle_at_max)) = 10 \<and>
   nSpeedTimeoutMax (snd (getSpeed exact_arith idle_at_max))
     < nSpeedTimeoutCount (snd (getSpeed exact_arith idle_at_max)) \<and>
   fLastSpeed idle_at_max = 1000 \<and>
   fLastSpeed (snd (getSpeed exact_arith idle_at_max)) = 1000 \<and>
   fst (getSpeed exact_arith idle_at_max) = 1000 \<and>
   fst (getSpeed exact_arith idle_at_max)
     \<noteq> fmul exact_arith (fLastSpeed idle_at_max) (f_lit exact_arith (1 / 2)) \<and>
   nSpeedAvrTimeCount tiny_past_max = 0 \<and>
   nSpeedTimeoutMax tiny_past_max < nSpeedTimeoutCount tiny_past_max \<and>
   fLastSpeed tiny_past_max = Fin (1 / 2 ^ 149) \<and>
   fLastSpeed (snd (getSpeed binary32 tiny_past_max)) = Zero False \<and>
   fLastSpeed (snd (getSpeed binary32 tiny_past_max)) \<noteq> Fin (1 / 2 ^ 149 / 2) \<and>
   nSpeedAvrTimeCount huge_past_max = 0 \<and>
   nSpeedTimeoutMax huge_past_max < nSpeedTimeoutCount huge_past_max \<and>
   fLastSpeed huge_past_max = Infinity False \<and>
   fLastSpeed (snd (getSpeed binary32 huge_past_max)) = Infinity False"
proof -
  have a: "nSpeedAvrTimeCount idle_at_max = 0 \<and>
   nSpeedTimeoutCount (snd (getSpeed exact_arith idle_at_max)) = 11 \<and>
   nSpeedTimeoutMax (snd (getSpeed exact_arith idle_at_max)) = 10 \<and>
   nSpeedTimeoutMax (snd (getSpeed exact_arith idle_at_max))
     < nSpeedTimeoutCount (snd (getSpeed exact_arith idle_at_max)) \<and>
   fLastSpeed idle_at_max = 1000 \<and>
   fLastSpeed (snd (getSpeed exact_arith idle_at_max)) = 1000 \<and>
   fst (getSpeed exact_arith idle_at_max) = 1000 \<and>
   fst (getSpeed exact_arith idle_at_max)
     \<noteq> fmul exact_arith (fLastSpeed idle_at_max) (f_lit exact_arith (1 / 2))"
    by (simp add: idle_at_max_state getSpeed_idle) (simp add: exact_arith_def)
  have t: "nSpeedAvrTimeCount tiny_past_max = 0"
    "nSpeedTimeoutMax tiny_past_max < nSpeedTimeoutCount tiny_past_max"
    "fLastSpeed tiny_past_max = Fin (1 / 2 ^ 149)"
    by (simp_all add: tiny_past_max_state)
  have h: "nSpeedAvrTimeCount huge_past_max = 0"
    "nSpeedTimeoutMax huge_past_max < nSpeedTimeoutCount huge_past_max"
    "fLastSpeed huge_past_max = Infinity False"
    by (simp_all add: huge_past_max_state)
  have m: "b32_mul (Fin (1 / 2 ^ 149)) (Fin (1 / 2)) = Zero False"
    "b32_mul (Infinity False) (Fin (1 / 2)) = Infinity False"
    by code_simp+
  have t': "fLastSpeed (snd (getSpeed binary32 tiny_past_max)) = Zero False"
    by (simp only: getSpeed_decay [OF t(1,2)] t(3) binary32_sel b32_consts m)
  have h': "fLastSpeed (snd (getSpeed binary32 huge_past_max)) = Infinity False"
    by (simp only: getSpeed_decay [OF h(1,2)] h(3) binary32_sel b32_consts m)
  from a t h t' h' show ?thesis by (simp add: exact_arith_def)
qed

text \<open>
  Claim C6. A call of \<^verbatim>\<open>getSpeed\<close> that drains a positive count and a sum other than 0
  returns \<open>1000000.0f * speedFactor / ((float) sum / (float) count)\<close> and sets the timeout
  counter to 0. After the forward cycle in X4 encoding with the factor 1.0 of the
  constructor the pulse count is 4 and the query returns
  \<open>1000000.0f * 1.0 / (3000 / 3)\<close>; without rounding this is
  \<open>1000000 / ((1000 + 1000 + 1000) / 3) = 1000\<close>.
\<close>

theorem speed_formula:
  "(0 < sint (nSpeedAvrTimeCount s) \<and> nSpeedAvrTimeSum s \<noteq> 0 \<longrightarrow>
      fst (getSpeed F s) =
        fdiv F (fmul F (f_lit F 1000000) (fSpeedFactor s))
               (fdiv F (f_of_int F (sint (nSpeedAvrTimeSum s)))
                       (f_of_int F (sint (nSpeedAvrTimeCount s)))) \<and>
      nSpeedTimeoutCount (snd (getSpeed F s)) = 0) \<and>
   encoding (forward_cycle F) = X4_ENCODING \<and>
   fSpeedFactor (forward_cycle F) = f_lit F 1 \<and>
   pulses (forward_cycle F) = 4 \<and>
   fst (getSpeed F (forward_cycle F)) =
     fdiv F (fmul F (f_lit F 1000000) (f_lit F 1)) (fdiv F (f_of_int F 3000) (f_of_int F 3)) \<and>
   fst (getSpeed exact_arith (forward_cycle exact_arith))
     = 1000000 / ((1000 + 1000 + 1000) / 3) \<and>
   fst (getSpeed exact_arith (forward_cycle exact_arith)) = 1000"
proof -
  have "fst (getSpeed F s) =
        fdiv F (fmul F (f_lit F 1000000) (fSpeedFactor s))
               (fdiv F (f_of_int F (sint (nSpeedAvrTimeSum s)))
                       (f_of_int F (sint (nSpeedAvrTimeCount s)))) \<and>
      nSpeedTimeoutCount (snd (getSpeed F s)) = 0"
    if "0 < sint (nSpeedAvrTimeCount s)" "nSpeedAvrTimeSum s \<noteq> 0"
    using that by (auto simp add: getSpeed_def Let_def)
  moreover have "fst (getSpeed F (forward_cycle F)) =
     fdiv F (fmul F (f_lit F 1000000) (f_lit F 1)) (fdiv F (f_of_int F 3000) (f_of_int F 3))"
    by (simp add: forward_cycle_state getSpeed_def Let_def)
  ultimately show ?thesis
    by (simp add: first_query_state) (simp add: forward_cycle_state)
qed

theorem speed_formula_witness:
  "0 < sint (nSpeedAvrTimeCount (setSpeedFactor 3 (forward_cycle exact_arith))) \<and>
   nSpeedAvrTimeSum (setSpeedFactor 3 (forward_cycle exact_arith)) \<noteq> 0 \<and>
   fst (getSpeed exact_arith (setSpeedFactor 3 (forward_cycle exact_arith))) = 3000 \<and>
   nSpeedTimeoutCount (snd (getSpeed exact_arith (setSpeedFactor 3 (forward_cycle exact_arith)))) = 0"
proof -
  have q: "nSpeedAvrTimeCount (setSpeedFactor 3 (forward_cycle exact_arith)) = 3"
    "nSpeedAvrTimeSum (setSpeedFactor 3 (forward_cycle exact_arith)) = 3000"
    "fSpeedFactor (setSpeedFactor 3 (forward_cycle exact_arith)) = 3"
    by (simp_all add: setSpeedFactor_def forward_cycle_state)
  show ?thesis
    using speed_formula [of "setSpeedFactor 3 (forward_cycle exact_arith)" exact_arith]
    by (simp add: q) (simp add: exact_arith_def)
qed

text \<open>
  Claim C7, as the code has it. A call of \<^verbatim>\<open>getSpeed\<close> that drains a negative count, or
  a count other than 0 together with a sum of 0, reports the speed 0 and sets the
  timeout counter to 0. The first query after construction returns 0 and leaves the
  timeout counter at 0.
\<close>

theorem stopped_speed_is_zero:
  "(sint (nSpeedAvrTimeCount s) < 0 \<or> (nSpeedAvrTimeCount s \<noteq> 0 \<and> nSpeedAvrTimeSum s = 0) \<longrightarrow>
      fst (getSpeed F s) = f_of_int F 0 \<and> nSpeedTimeoutCount (snd (getSpeed F s)) = 0) \<and>
   fst (getSpeed F (QEI F a b enc)) = f_of_int F 0 \<and>
   nSpeedTimeoutCount (QEI F a b enc) = 0 \<and>
   nSpeedTimeoutCount (snd (getSpeed F (QEI F a b enc))) = 0"
  by (auto simp add: getSpeed_def Let_def QEI_def)

theorem stopped_speed_is_zero_witness:
  "nSpeedAvrTimeCount (back_and_forth exact_arith) \<noteq> 0 \<and>
   nSpeedAvrTimeSum (back_and_forth exact_arith) = 0 \<and>
   fst (getSpeed exact_arith (back_and_forth exact_arith)) = 0 \<and>
   nSpeedTimeoutCount (snd (getSpeed exact_arith (back_and_forth exact_arith))) = 0 \<and>
   sint (nSpeedAvrTimeCount (QEI exact_arith False False X4_ENCODING)) < 0 \<and>
   fst (getSpeed exact_arith (QEI exact_arith False False X4_ENCODING)) = 0"
proof -
  have q: "nSpeedAvrTimeCount (back_and_forth exact_arith) = 2"
    "nSpeedAvrTimeSum (back_and_forth exact_arith) = 0"
    "nSpeedAvrTimeCount (QEI exact_arith False False X4_ENCODING) = - 1"
    by (simp_all add: back_and_forth_state fresh_state)
  have z: "f_of_int exact_arith 0 = 0" by (simp add: exact_arith_def)
  show ?thesis
    using stopped_speed_is_zero [of "back_and_forth exact_arith" exact_arith False False X4_ENCODING]
      stopped_speed_is_zero [of "QEI exact_arith False False X4_ENCODING" exact_arith False False X4_ENCODING]
    by (simp add: q z)
qed

text \<open>
  The claim as it is written also covers a drained sum of 0 with a drained count of 0,
  the state every query leaves. There line 89 takes the first branch: after the forward
  cycle and one query, the next query drains sum 0 and count 0, reports the last speed
  1000 and moves the timeout counter from 0 to 1.
\<close>

theorem stopped_speed_is_zero_counterexample:
  "nSpeedAvrTimeSum idle_after_query = 0 \<and>
   nSpeedAvrTimeCount idle_after_query = 0 \<and>
   nSpeedTimeoutCount idle_after_query = 0 \<and>
   fst (getSpeed exact_arith idle_after_query) = 1000 \<and>
   fst (getSpeed exact_arith idle_after_query) \<noteq> f_of_int exact_arith 0 \<and>
   nSpeedTimeoutCount (snd (getSpeed exact_arith idle_after_query)) = 1"
  by (simp add: idle_after_query_state getSpeed_idle) (simp add: exact_arith_def)

text \<open>
  Claim C8. Every call of \<^verbatim>\<open>getSpeed\<close> leaves the window at sum 0 and count 0 and
  stores the value it returns as the last speed; after it, no sequence of calls of the
  member functions and interrupt handlers brings the count back to \<open>-1\<close>.
\<close>

theorem query_drains_window:
  "nSpeedAvrTimeSum (snd (getSpeed F s)) = 0 \<and>
   nSpeedAvrTimeCount (snd (getSpeed F s)) = 0 \<and>
   fLastSpeed (snd (getSpeed F s)) = fst (getSpeed F s) \<and>
   nSpeedAvrTimeCount (calls F cs (snd (getSpeed F s))) \<noteq> - 1"
proof -
  have a: "nSpeedAvrTimeSum (snd (getSpeed F s)) = 0 \<and>
    nSpeedAvrTimeCount (snd (getSpeed F s)) = 0 \<and>
    fLastSpeed (snd (getSpeed F s)) = fst (getSpeed F s)"
    by (simp add: getSpeed_def Let_def split_beta)
  then have "nSpeedAvrTimeCount (snd (getSpeed F s)) \<noteq> - 1" by simp
  from count_calls [OF this] a show ?thesis by simp
qed

theorem query_drains_window_witness:
  "nSpeedAvrTimeSum (snd (getSpeed exact_arith (forward_cycle exact_arith))) = 0 \<and>
   nSpeedAvrTimeCount (snd (getSpeed exact_arith (forward_cycle exact_arith))) = 0 \<and>
   fLastSpeed (snd (getSpeed exact_arith (forward_cycle exact_arith))) = 1000 \<and>
   nSpeedAvrTimeCount (calls exact_arith [Reset, Encode False True 5000, GetSpeed, Index]
      (snd (getSpeed exact_arith (forward_cycle exact_arith)))) \<noteq> - 1"
  using query_drains_window [of exact_arith "forward_cycle exact_arith"
      "[Reset, Encode False True 5000, GetSpeed, Index]"]
  by (simp add: first_query_state)

section \<open>Position and revolution tracking\<close>

text \<open>
  Claim C9, as the code has it. \<^verbatim>\<open>reset\<close> sets the pulse count and the revolution count
  to 0 whatever they were and leaves every other member as it is: the previous and
  current state, the window, the last timer value, the last speed and the timeout
  counter. It does not bring back the count \<open>-1\<close>: when the count of the window was not
  negative before the reset, the first pulse after it has its delta accumulated,
  forward or backward.
\<close>

theorem reset_clears_counts_only:
  "pulses (reset s) = 0 \<and> revolutions (reset s) = 0 \<and>
   encoding (reset s) = encoding s \<and>
   prevState (reset s) = prevState s \<and> currState (reset s) = currState s \<and>
   fSpeedFactor (reset s) = fSpeedFactor s \<and> fPositionFactor (reset s) = fPositionFactor s \<and>
   nSpeedLastTimer (reset s) = nSpeedLastTimer s \<and>
   nSpeedTimeoutMax (reset s) = nSpeedTimeoutMax s \<and>
   nSpeedTimeoutCount (reset s) = nSpeedTimeoutCount s \<and>
   nSpeedAvrTimeSum (reset s) = nSpeedAvrTimeSum s \<and>
   nSpeedAvrTimeCount (reset s) = nSpeedAvrTimeCount s \<and>
   fLastSpeed (reset s) = fLastSpeed s \<and>
   (nSpeedAvrTimeCount s \<noteq> - 1 \<longrightarrow> nSpeedAvrTimeCount (reset s) \<noteq> - 1) \<and>
   (0 \<le> sint (nSpeedAvrTimeCount s) \<and> pulses (encode a b act (reset s)) = 1 \<longrightarrow>
      nSpeedAvrTimeSum (encode a b act (reset s))
        = nSpeedAvrTimeSum s + (act - nSpeedLastTimer s) \<and>
      nSpeedAvrTimeCount (encode a b act (reset s)) = nSpeedAvrTimeCount s + 1) \<and>
   (0 \<le> sint (nSpeedAvrTimeCount s) \<and> pulses (encode a b act (reset s)) = - 1 \<longrightarrow>
      nSpeedAvrTimeSum (encode a b act (reset s))
        = nSpeedAvrTimeSum s - (act - nSpeedLastTimer s) \<and>
      nSpeedAvrTimeCount (encode a b act (reset s)) = nSpeedAvrTimeCount s + 1)"
proof -
  have r: "pulses (reset s) = 0" "nSpeedAvrTimeSum (reset s) = nSpeedAvrTimeSum s"
    "nSpeedAvrTimeCount (reset s) = nSpeedAvrTimeCount s"
    "nSpeedLastTimer (reset s) = nSpeedLastTimer s"
    by (simp_all add: reset_def)
  have e: "(0 \<le> sint (nSpeedAvrTimeCount s) \<and> pulses (encode a b act (reset s)) = 1 \<longrightarrow>
      nSpeedAvrTimeSum (encode a b act (reset s))
        = nSpeedAvrTimeSum s + (act - nSpeedLastTimer s) \<and>
      nSpeedAvrTimeCount (encode a b act (reset s)) = nSpeedAvrTimeCount s + 1) \<and>
   (0 \<le> sint (nSpeedAvrTimeCount s) \<and> pulses (encode a b act (reset s)) = - 1 \<longrightarrow>
      nSpeedAvrTimeSum (encode a b act (reset s))
        = nSpeedAvrTimeSum s - (act - nSpeedLastTimer s) \<and>
      nSpeedAvrTimeCount (encode a b act (reset s)) = nSpeedAvrTimeCount s + 1)"
    using pulses_encode_cases [of a b "reset s" act]
    by (auto simp add: encode_window r)
  show ?thesis
    using e by (simp add: reset_def)
qed

theorem reset_clears_counts_only_witness:
  "0 \<le> sint (nSpeedAvrTimeCount (forward_cycle exact_arith)) \<and>
   pulses (forward_cycle exact_arith) = 4 \<and>
   pulses (reset (forward_cycle exact_arith)) = 0 \<and>
   pulses (encode False True 4000 (reset (forward_cycle exact_arith))) = 1 \<and>
   nSpeedAvrTimeSum (encode False True 4000 (reset (forward_cycle exact_arith))) = 4000 \<and>
   nSpeedAvrTimeCount (encode False True 4000 (reset (forward_cycle exact_arith))) = 4 \<and>
   pulses (encode True False 4000 (reset (forward_cycle exact_arith))) = - 1 \<and>
   nSpeedAvrTimeSum (encode True False 4000 (reset (forward_cycle exact_arith))) = 2000 \<and>
   nSpeedAvrTimeCount (encode True False 4000 (reset (forward_cycle exact_arith))) = 4"
proof -
  have q: "pulses (forward_cycle exact_arith) = 4"
    "nSpeedLastTimer (forward_cycle exact_arith) = 3000"
    "nSpeedAvrTimeSum (forward_cycle exact_arith) = 3000"
    "nSpeedAvrTimeCount (forward_cycle exact_arith) = 3"
    by (simp_all add: forward_cycle_state)
  have p: "pulses (encode False True 4000 (reset (forward_cycle exact_arith))) = 1"
    "pulses (encode True False 4000 (reset (forward_cycle exact_arith))) = - 1"
    by (simp_all add: forward_cycle_state reset_def encode_defs)
  show ?thesis
    using reset_clears_counts_only [of "forward_cycle exact_arith" False True 4000]
      reset_clears_counts_only [of "forward_cycle exact_arith" True False 4000]
    by (simp add: q p)
qed

text \<open>
  The claim as it is written promises the accumulation after every reset. A reset
  right after construction leaves the count at the \<open>-1\<close> of the constructor, and the
  first pulse after it, 1000 microseconds later, has its delta dropped: the sum stays 0.
\<close>

theorem reset_clears_counts_only_counterexample:
  "nSpeedAvrTimeCount (reset (QEI exact_arith False False X4_ENCODING)) = - 1 \<and>
   nSpeedLastTimer (reset (QEI exact_arith False False X4_ENCODING)) = 0 \<and>
   pulses (encode False True 1000 (reset (QEI exact_arith False False X4_ENCODING))) = 1 \<and>
   nSpeedAvrTimeSum (encode False True 1000 (reset (QEI exact_arith False False X4_ENCODING))) = 0 \<and>
   nSpeedAvrTimeCount (encode False True 1000 (reset (QEI exact_arith False False X4_ENCODING))) = 0 \<and>
   nSpeedAvrTimeSum (encode False True 1000 (reset (QEI exact_arith False False X4_ENCODING)))
     \<noteq> nSpeedAvrTimeSum (reset (QEI exact_arith False False X4_ENCODING))
         + (1000 - nSpeedLastTimer (reset (QEI exact_arith False False X4_ENCODING)))"
  by (simp add: fresh_state reset_def encode_defs)

text \<open>
  Claim C10. For every \<^verbatim>\<open>int\<close> \<open>v\<close>, \<^verbatim>\<open>read\<close> after \<^verbatim>\<open>write(v)\<close> returns \<open>v\<close>; \<^verbatim>\<open>write\<close> leaves
  the revolution count and the window as they are; \<^verbatim>\<open>read\<close> and \<^verbatim>\<open>getPosition\<close> leave
  the whole state as it is; \<^verbatim>\<open>getPosition\<close> returns \<open>(float) pulses * positionFactor\<close>
  for every factor, which without rounding is the product of the two numbers, also for
  the factors 0 and below.
\<close>

theorem write_read_position:
  "fst (read (write_pulses v s)) = v \<and>
   snd (read s) = s \<and>
   revolutions (write_pulses v s) = revolutions s \<and>
   nSpeedAvrTimeSum (write_pulses v s) = nSpeedAvrTimeSum s \<and>
   nSpeedAvrTimeCount (write_pulses v s) = nSpeedAvrTimeCount s \<and>
   fst (getPosition F s) = fmul F (f_of_int F (sint (fst (read s)))) (fPositionFactor s) \<and>
   snd (getPosition F s) = s \<and>
   fst (getPosition exact_arith (setPositionFactor x (write_pulses v t)))
     = rat_of_int (sint v) * x"
  by (simp add: read_def write_pulses_def getPosition_def setPositionFactor_def exact_arith_def)

theorem write_read_position_witness:
  "fst (read (write_pulses (- 7) (forward_cycle exact_arith))) = - 7 \<and>
   fst (getPosition exact_arith
         (setPositionFactor (- 3 / 2) (write_pulses (- 7) (forward_cycle exact_arith)))) = 21 / 2 \<and>
   fst (getPosition exact_arith
         (setPositionFactor 0 (write_pulses (- 7) (forward_cycle exact_arith)))) = 0"
  using write_read_position [of "- 7" "forward_cycle exact_arith" exact_arith "- 3 / 2" "forward_cycle exact_arith"]
    write_read_position [of "- 7" "forward_cycle exact_arith" exact_arith 0 "forward_cycle exact_arith"]
  by simp

end
